theory Spec2Isabelle
  imports Main "HOL-Library.Multiset"
begin

section \<open>Parcel status resolution (component \<open>Recent\<close>)\<close>

text \<open>
  The records of the \<open>Recent\<close> query. The subgraph delivers its big integers as decimal
  strings. The code converts \<open>forSalePrice\<close>, \<open>contributionRate\<close> and \<open>timestamp\<close> before
  it uses them, so they are the unbounded integers the strings denote: \<open>BigNumber.from\<close>
  reads them without loss, and \<open>Number(timestamp)\<close> is exact on every block timestamp
  (below \<open>2^53\<close>). It copies \<open>createdAtBlock\<close> as it comes and never converts it, so that
  field is the string. The bounding box and the centre computed from it by the geometry
  library are left out: no property below reads them.
  The query's field \<open>id\<close> is written \<open>parcel_id\<close> and its \<open>createdAtBlock\<close> is written
  \<open>parcel_createdAtBlock\<close>, since a record field is a constant and \<open>id\<close> is the identity
  of HOL.
\<close>

record bid =
  forSalePrice :: int
  contributionRate :: int
  timestamp :: int

record geoWebParcel =
  parcel_id :: string
  parcel_createdAtBlock :: string
  licenseOwner :: string
  licenseDiamond :: string
  currentBid :: bid
  pendingBid :: "bid option"

text \<open>The element pushed on \<open>_parcels\<close> (type \<open>Parcel\<close>), without its \<open>center\<close>.\<close>

record Parcel =
  parcelId :: string
  createdAtBlock :: string
  status :: string
  name :: string
  price :: int

text \<open>
  Modelled from the spec: the constant \<open>SECONDS_IN_WEEK\<close> is imported from
  \<open>lib/constants\<close>, which is not among the sources; the spec calls it one week in seconds.
\<close>

definition SECONDS_IN_WEEK :: int where
  "SECONDS_IN_WEEK = 60 * 60 * 24 * 7"

text \<open>
  The first \<open>if\<close> of the loop body: the status and price a record starts with, or \<open>None\<close>
  where the body runs \<open>continue\<close>.
\<close>

definition step1 :: "geoWebParcel \<Rightarrow> (string \<times> int) option" where
  "step1 parcel =
     (case pendingBid parcel of
        None \<Rightarrow> Some (''Valid'', forSalePrice (currentBid parcel))
      | Some pb \<Rightarrow>
          if contributionRate pb = 0 then Some (''Valid'', forSalePrice (currentBid parcel))
          else if contributionRate pb > 0 then Some (''Outstanding Bid'', forSalePrice pb)
          else None)"

text \<open>
  The callback on \<open>shouldBidPeriodEndEarly()\<close>. \<open>now\<close> is what \<open>Date.now()\<close> returns
  when the callback runs, in milliseconds.
\<close>

definition step2 :: "int \<Rightarrow> bool \<Rightarrow> geoWebParcel \<Rightarrow> string \<times> int \<Rightarrow> string \<times> int" where
  "step2 now shouldEndEarly parcel sp =
     (case pendingBid parcel of
        None \<Rightarrow> sp
      | Some pb \<Rightarrow>
          if contributionRate pb > 0 then
            (let deadline = timestamp pb + SECONDS_IN_WEEK;
                 isPastDeadline = (deadline * 1000 \<le> now)
             in if isPastDeadline \<or> shouldEndEarly
                then (''Needs Transfer'', forSalePrice pb) else sp)
          else sp)"

text \<open>The callback on \<open>isPayerBidActive()\<close>: it assigns \<open>status\<close> only.\<close>

definition step3 :: "bool \<Rightarrow> string \<times> int \<Rightarrow> string \<times> int" where
  "step3 payerBidActive sp = (if \<not> payerBidActive then (''In Foreclosure'', snd sp) else sp)"

text \<open>
  A settled promise. What the three remote reads of one record's chain settle to, and the
  clock reading of its second callback, are the inputs of the chain.
\<close>

datatype 'a settled = Fulfilled 'a | Rejected

record parcelContent =
  content_name :: "string option"

record reads =
  shouldBidPeriodEndEarly :: "bool settled"
  date_now :: int
  isPayerBidActive :: "bool settled"
  getParcelContent :: "parcelContent option settled"

text \<open>
  The display name: \<open>parcelContent && parcelContent.name ? parcelContent.name : `Parcel ${parcelId}`\<close>;
  the empty string is falsy.
\<close>

definition display_name :: "parcelContent option \<Rightarrow> string \<Rightarrow> string" where
  "display_name pc pid =
     (case pc of
        None \<Rightarrow> ''Parcel '' @ pid
      | Some c \<Rightarrow>
          (case content_name c of
             None \<Rightarrow> ''Parcel '' @ pid
           | Some n \<Rightarrow> if n = [] then ''Parcel '' @ pid else n))"

text \<open>
  The chain of \<open>then\<close> callbacks of one record, started from the status and price of
  \<open>step1\<close>. A rejected read rejects the chain and nothing is pushed.
\<close>

definition promiseChain :: "reads \<Rightarrow> geoWebParcel \<Rightarrow> string \<times> int \<Rightarrow> Parcel settled" where
  "promiseChain r parcel sp =
     (case shouldBidPeriodEndEarly r of
        Rejected \<Rightarrow> Rejected
      | Fulfilled e \<Rightarrow>
          (case isPayerBidActive r of
             Rejected \<Rightarrow> Rejected
           | Fulfilled a \<Rightarrow>
               (case getParcelContent r of
                  Rejected \<Rightarrow> Rejected
                | Fulfilled pc \<Rightarrow>
                    (let sp3 = step3 a (step2 (date_now r) e parcel sp)
                     in Fulfilled \<lparr>parcelId = parcel_id parcel,
                          createdAtBlock = parcel_createdAtBlock parcel,
                          status = fst sp3,
                          name = display_name pc (parcel_id parcel),
                          price = snd sp3\<rparr>))))"

text \<open>
  The \<open>for\<close> loop over \<open>data.geoWebParcels\<close>: the array \<open>promises\<close>, one chain for each
  record that \<open>step1\<close> keeps. \<open>rd\<close> gives the reads of each record.
\<close>

fun promises :: "(geoWebParcel \<Rightarrow> reads) \<Rightarrow> geoWebParcel list \<Rightarrow> Parcel settled list" where
  "promises rd [] = []"
| "promises rd (parcel # rest) =
     (case step1 parcel of
        None \<Rightarrow> promises rd rest
      | Some sp \<Rightarrow> promiseChain (rd parcel) parcel sp # promises rd rest)"

text \<open>
  \<open>Array.prototype.sort\<close> is the language's builtin, a stable comparison sort that reads
  the array through \<open>comparefn\<close> only. It is modelled as the insertion sort that engines
  run on short arrays (a page holds at most 25 records): the elements are taken from left
  to right, and an element moves in front of one already placed exactly when
  \<open>comparefn\<close> of the two is negative.
\<close>

fun insert_by :: "('a \<Rightarrow> 'a \<Rightarrow> int) \<Rightarrow> 'a \<Rightarrow> 'a list \<Rightarrow> 'a list" where
  "insert_by comparefn x [] = [x]"
| "insert_by comparefn x (y # ys) =
     (if comparefn x y < 0 then x # y # ys else y # insert_by comparefn x ys)"

definition Array_sort :: "('a \<Rightarrow> 'a \<Rightarrow> int) \<Rightarrow> 'a list \<Rightarrow> 'a list" where
  "Array_sort comparefn xs = foldl (\<lambda>placed x. insert_by comparefn x placed) [] xs"

text \<open>
  The operator \<open><\<close> of the language on two strings: the first code unit where they
  differ decides, and a proper prefix is less than the string it starts. \<open>a > b\<close> is
  \<open>b < a\<close>.
\<close>

fun string_less :: "string \<Rightarrow> string \<Rightarrow> bool" where
  "string_less xs [] = False"
| "string_less [] (y # ys) = True"
| "string_less (x # xs) (y # ys) =
     (if x = y then string_less xs ys else (of_char x :: nat) < of_char y)"

text \<open>
  The arrow function given to \<open>sort\<close>: it returns \<open>-1\<close> or \<open>1\<close>, never \<open>0\<close>, and its
  \<open>a.createdAtBlock > b.createdAtBlock\<close> compares the two strings.
\<close>

definition compareParcels :: "Parcel \<Rightarrow> Parcel \<Rightarrow> int" where
  "compareParcels a b = (if string_less (createdAtBlock b) (createdAtBlock a) then - 1 else 1)"

definition sortParcels :: "Parcel list \<Rightarrow> Parcel list" where
  "sortParcels parcels = Array_sort compareParcels parcels"

section \<open>Pin status tracking (component \<open>GalleryDisplayItem\<close>)\<close>

text \<open>
  \<open>String.prototype.replace\<close> with a string pattern replaces the first occurrence of the
  pattern, wherever it stands. (The replacement used below is empty, so the \<open>$\<close> patterns
  of a replacement string play no part.)
\<close>

fun starts_with :: "string \<Rightarrow> string \<Rightarrow> bool" where
  "starts_with [] s = True"
| "starts_with (p # ps) [] = False"
| "starts_with (p # ps) (c # cs) = (p = c \<and> starts_with ps cs)"

fun replace_str :: "string \<Rightarrow> string \<Rightarrow> string \<Rightarrow> string" where
  "replace_str pat rep [] = (if pat = [] then rep else [])"
| "replace_str pat rep (c # cs) =
     (if starts_with pat (c # cs) then rep @ drop (length pat) (c # cs)
      else c # replace_str pat rep cs)"

text \<open>
  The constants \<open>cid\<close> and \<open>name\<close> of the component (\<open>name\<close> is written \<open>pin_name\<close>:
  the parcel record has a field \<open>name\<close>), from the stream id as a string and the
  \<open>contentUrl\<close> of the stream content.
\<close>

definition cid :: "string \<Rightarrow> string" where
  "cid contentUrl = replace_str ''ipfs://'' [] contentUrl"

definition pin_name :: "string \<Rightarrow> string \<Rightarrow> string" where
  "pin_name streamId contentUrl = streamId @ ''-'' @ cid contentUrl"

datatype pin_state = STATE_PINNED | STATE_PINNING | STATE_FAILED | STATE_NOT_FOUND

record pinningManager =
  isPinned :: "string \<Rightarrow> bool"
  failedPins :: "string set"

text \<open>
  One call of \<open>triggerPreload\<close>: its local variable \<open>success\<close>, whether the promise of
  \<open>preload(cid)\<close> has settled, and its timer, due 10000 ms after the call.
\<close>

record probe =
  success :: bool
  preload_settled :: bool
  timer_due :: nat
  timer_fired :: bool

text \<open>
  The component's state \<open>pinState\<close> (\<open>null\<close> at first), the probes started so far and
  the time in milliseconds.
\<close>

record tracker =
  pinState :: "pin_state option"
  probes :: "probe list"
  clock :: nat

definition initial_tracker :: tracker where
  "initial_tracker = \<lparr>pinState = None, probes = [], clock = 0\<rparr>"

definition triggerPreload :: "tracker \<Rightarrow> tracker" where
  "triggerPreload s =
     s\<lparr>probes := probes s @
        [\<lparr>success = False, preload_settled = False,
          timer_due = clock s + 10000, timer_fired = False\<rparr>]\<rparr>"

text \<open>The effect keyed on \<open>[pinState]\<close>.\<close>

definition preload_effect :: "tracker \<Rightarrow> tracker" where
  "preload_effect s = (if pinState s = Some STATE_PINNING then triggerPreload s else s)"

text \<open>
  \<open>setPinState\<close>: setting the value the state already has causes no render; a new value
  is stored, the component renders and the effect keyed on \<open>[pinState]\<close> runs.
\<close>

definition setPinState :: "pin_state \<Rightarrow> tracker \<Rightarrow> tracker" where
  "setPinState v s = (if pinState s = Some v then s else preload_effect (s\<lparr>pinState := Some v\<rparr>))"

text \<open>
  The effect keyed on \<open>[pinningManager, failedPins, isPinned]\<close>, for the identifier
  \<open>nm\<close>; \<open>None\<close> is a missing \<open>pinningManager\<close>.
\<close>

definition pin_effect :: "pinningManager option \<Rightarrow> string \<Rightarrow> tracker \<Rightarrow> tracker" where
  "pin_effect pm nm s =
     (case pm of
        None \<Rightarrow> s
      | Some m \<Rightarrow>
          if isPinned m nm then setPinState STATE_PINNED s
          else if nm \<in> failedPins m then setPinState STATE_FAILED s
          else setPinState STATE_PINNING s)"

text \<open>
  What can happen to a mounted item: the first effect runs on an observation of the
  pinning manager, time passes, the preload of probe \<open>i\<close> resolves or rejects, the timer
  of probe \<open>i\<close> fires. \<open>step\<close> is \<open>None\<close> where the event cannot happen: a promise
  settles once, a timer fires once and not before it is due.
\<close>

datatype event =
  Observe "pinningManager option"
| Advance nat
| PreloadResolved nat
| PreloadRejected nat
| TimerFired nat

fun step :: "string \<Rightarrow> event \<Rightarrow> tracker \<Rightarrow> tracker option" where
  "step nm (Observe pm) s = Some (pin_effect pm nm s)"
| "step nm (Advance d) s = Some (s\<lparr>clock := clock s + d\<rparr>)"
| "step nm (PreloadResolved i) s =
     (if i < length (probes s) \<and> \<not> preload_settled (probes s ! i)
      then Some (s\<lparr>probes := (probes s)[i := (probes s ! i)\<lparr>success := True, preload_settled := True\<rparr>]\<rparr>)
      else None)"
| "step nm (PreloadRejected i) s =
     (if i < length (probes s) \<and> \<not> preload_settled (probes s ! i)
      then Some (setPinState STATE_NOT_FOUND
                  (s\<lparr>probes := (probes s)[i := (probes s ! i)\<lparr>preload_settled := True\<rparr>]\<rparr>))
      else None)"
| "step nm (TimerFired i) s =
     (if i < length (probes s) \<and> \<not> timer_fired (probes s ! i) \<and> timer_due (probes s ! i) \<le> clock s
      then (let s' = s\<lparr>probes := (probes s)[i := (probes s ! i)\<lparr>timer_fired := True\<rparr>]\<rparr>
            in Some (if \<not> success (probes s ! i) then setPinState STATE_NOT_FOUND s' else s'))
      else None)"

fun run :: "string \<Rightarrow> event list \<Rightarrow> tracker \<Rightarrow> tracker option" where
  "run nm [] s = Some s"
| "run nm (e # es) s = (case step nm e s of None \<Rightarrow> None | Some s' \<Rightarrow> run nm es s')"

section \<open>Notions used by the properties\<close>

text \<open>Probe \<open>i\<close> exists and its flag \<open>success\<close> is set.\<close>

definition succeeded :: "nat \<Rightarrow> tracker \<Rightarrow> bool" where
  "succeeded i s = (i < length (probes s) \<and> success (probes s ! i))"

text \<open>No probe has its flag \<open>success\<close> set while its preload is still pending.\<close>

definition flags_consistent :: "tracker \<Rightarrow> bool" where
  "flags_consistent s = list_all (\<lambda>p. \<not> success p \<or> preload_settled p) (probes s)"

text \<open>Every event but an observation of the pinning manager.\<close>

fun probe_event :: "event \<Rightarrow> bool" where
  "probe_event (Observe pm) = False"
| "probe_event e = True"

text \<open>
  A run of events with no observation and no rejected preload, in which every timer that
  fires belongs to a probe whose preload has resolved: one of the set \<open>ok\<close> at the start,
  or one that resolves earlier in the run.
\<close>

fun quiet :: "nat set \<Rightarrow> event list \<Rightarrow> bool" where
  "quiet ok [] = True"
| "quiet ok (Observe pm # es) = False"
| "quiet ok (Advance d # es) = quiet ok es"
| "quiet ok (PreloadResolved j # es) = quiet (insert j ok) es"
| "quiet ok (PreloadRejected j # es) = False"
| "quiet ok (TimerFired j # es) = (j \<in> ok \<and> quiet ok es)"

text \<open>The number a string of decimal digits denotes.\<close>

definition decimal :: "string \<Rightarrow> nat" where
  "decimal ds = foldl (\<lambda>n d. 10 * n + (of_char d - 48)) 0 ds"

text \<open>Sample inputs: a record with a given pending bid, and reads that all fulfil.\<close>

definition sample_parcel :: "bid option \<Rightarrow> geoWebParcel" where
  "sample_parcel pb =
     \<lparr>parcel_id = ''0x1'', parcel_createdAtBlock = ''5'', licenseOwner = ''0xa'',
      licenseDiamond = ''0xd'',
      currentBid = \<lparr>forSalePrice = 100, contributionRate = 2, timestamp = 10\<rparr>,
      pendingBid = pb\<rparr>"

definition sample_reads :: "bool \<Rightarrow> bool \<Rightarrow> reads" where
  "sample_reads endEarly active =
     \<lparr>shouldBidPeriodEndEarly = Fulfilled endEarly, date_now = 1700000000000,
      isPayerBidActive = Fulfilled active, getParcelContent = Fulfilled None\<rparr>"

section \<open>Initial status\<close>

lemma promises_append: "promises rd (xs @ ys) = promises rd xs @ promises rd ys"
  by (induction xs) (auto split: option.splits)

text \<open>
  C1. Step 1 of the resolver: with no pending bid, or a pending bid whose contribution
  rate is zero, the status is Valid and the price is the current bid's for-sale price; with
  a pending bid whose contribution rate is strictly positive, the status is Outstanding Bid
  and the price is the pending bid's for-sale price; in every other case the loop continues
  with the next record: the record contributes no promise, so nothing of it reaches the
  output, and no error is raised (the records around it are processed as without it).
\<close>

theorem step1_cases:
  "(pendingBid parcel = None \<or> (\<exists>pb. pendingBid parcel = Some pb \<and> contributionRate pb = 0)
      \<longrightarrow> step1 parcel = Some (''Valid'', forSalePrice (currentBid parcel)))
   \<and> (\<forall>pb. pendingBid parcel = Some pb \<and> contributionRate pb > 0
      \<longrightarrow> step1 parcel = Some (''Outstanding Bid'', forSalePrice pb))
   \<and> (\<forall>pb. pendingBid parcel = Some pb \<and> contributionRate pb \<noteq> 0 \<and> \<not> contributionRate pb > 0
      \<longrightarrow> step1 parcel = None
          \<and> promises rd (before @ parcel # after) = promises rd before @ promises rd after)"
  by (auto simp: step1_def promises_append)

theorem step1_cases_witness:
  "step1 (sample_parcel None) = Some (''Valid'', 100)
   \<and> step1 (sample_parcel (Some \<lparr>forSalePrice = 70, contributionRate = 0, timestamp = 20\<rparr>))
       = Some (''Valid'', 100)
   \<and> step1 (sample_parcel (Some \<lparr>forSalePrice = 70, contributionRate = 5, timestamp = 20\<rparr>))
       = Some (''Outstanding Bid'', 70)
   \<and> step1 (sample_parcel (Some \<lparr>forSalePrice = 70, contributionRate = - 5, timestamp = 20\<rparr>))
       = None
   \<and> promises (\<lambda>p. sample_reads False True)
        ([sample_parcel None]
          @ sample_parcel (Some \<lparr>forSalePrice = 70, contributionRate = - 5, timestamp = 20\<rparr>)
          # [sample_parcel None])
       = promises (\<lambda>p. sample_reads False True) [sample_parcel None]
          @ promises (\<lambda>p. sample_reads False True) [sample_parcel None]"
  using step1_cases [of "sample_parcel None"]
    step1_cases [of "sample_parcel (Some \<lparr>forSalePrice = 70, contributionRate = 0, timestamp = 20\<rparr>)"]
    step1_cases [of "sample_parcel (Some \<lparr>forSalePrice = 70, contributionRate = 5, timestamp = 20\<rparr>)"]
    step1_cases [of "sample_parcel (Some \<lparr>forSalePrice = 70, contributionRate = - 5, timestamp = 20\<rparr>)"
      "\<lambda>p. sample_reads False True" "[sample_parcel None]" "[sample_parcel None]"]
  by (simp add: sample_parcel_def)

section \<open>The overrides\<close>

text \<open>
  C2. Step 2: for a record with a pending bid whose contribution rate is strictly
  positive, the deadline is the pending bid's timestamp plus one week in seconds, and when
  the deadline has passed at the current time (both in milliseconds) or the read of
  \<open>shouldBidPeriodEndEarly\<close> returned true, the status becomes Needs Transfer and the price
  the pending bid's for-sale price; otherwise, and for every record without such a pending
  bid, step 2 changes nothing.
\<close>

theorem step2_override:
  "(\<forall>pb. pendingBid parcel = Some pb \<and> contributionRate pb > 0 \<longrightarrow>
      step2 now shouldEndEarly parcel sp =
        (if (timestamp pb + SECONDS_IN_WEEK) * 1000 \<le> now \<or> shouldEndEarly
         then (''Needs Transfer'', forSalePrice pb) else sp))
   \<and> ((pendingBid parcel = None \<or> (\<exists>pb. pendingBid parcel = Some pb \<and> \<not> contributionRate pb > 0))
        \<longrightarrow> step2 now shouldEndEarly parcel sp = sp)
   \<and> SECONDS_IN_WEEK = 604800"
  by (auto simp: step2_def SECONDS_IN_WEEK_def Let_def)

theorem step2_override_witness:
  "step2 604820000 False
      (sample_parcel (Some \<lparr>forSalePrice = 70, contributionRate = 5, timestamp = 20\<rparr>))
      (''Outstanding Bid'', 70) = (''Needs Transfer'', 70)
   \<and> step2 604819999 False
      (sample_parcel (Some \<lparr>forSalePrice = 70, contributionRate = 5, timestamp = 20\<rparr>))
      (''Outstanding Bid'', 70) = (''Outstanding Bid'', 70)
   \<and> step2 604819999 True
      (sample_parcel (Some \<lparr>forSalePrice = 70, contributionRate = 5, timestamp = 20\<rparr>))
      (''Outstanding Bid'', 70) = (''Needs Transfer'', 70)
   \<and> step2 604820000 True
      (sample_parcel (Some \<lparr>forSalePrice = 70, contributionRate = 0, timestamp = 20\<rparr>))
      (''Valid'', 100) = (''Valid'', 100)
   \<and> step2 604820000 True (sample_parcel None) (''Valid'', 100) = (''Valid'', 100)"
  using step2_override [of "sample_parcel (Some \<lparr>forSalePrice = 70, contributionRate = 5, timestamp = 20\<rparr>)"
      604820000 False "(''Outstanding Bid'', 70)"]
    step2_override [of "sample_parcel (Some \<lparr>forSalePrice = 70, contributionRate = 5, timestamp = 20\<rparr>)"
      604819999 False "(''Outstanding Bid'', 70)"]
    step2_override [of "sample_parcel (Some \<lparr>forSalePrice = 70, contributionRate = 5, timestamp = 20\<rparr>)"
      604819999 True "(''Outstanding Bid'', 70)"]
    step2_override [of "sample_parcel (Some \<lparr>forSalePrice = 70, contributionRate = 0, timestamp = 20\<rparr>)"
      604820000 True "(''Valid'', 100)"]
    step2_override [of "sample_parcel None" 604820000 True "(''Valid'', 100)"]
  by (simp add: sample_parcel_def)

text \<open>
  C3. Step 3: for every record that step 1 keeps, whatever its bids and whatever status
  steps 1 and 2 gave it, when the read of \<open>isPayerBidActive\<close> returns false (and the other
  two reads of the chain fulfil) the chain pushes a parcel whose status is In Foreclosure.
\<close>

theorem foreclosure_overrides:
  "step1 parcel = Some sp \<and> shouldBidPeriodEndEarly r = Fulfilled e
     \<and> isPayerBidActive r = Fulfilled False \<and> getParcelContent r = Fulfilled pc
   \<longrightarrow> (\<exists>q. promiseChain r parcel sp = Fulfilled q \<and> status q = ''In Foreclosure'')"
  by (simp add: promiseChain_def step3_def Let_def)

theorem foreclosure_overrides_witness:
  "step1 (sample_parcel (Some \<lparr>forSalePrice = 70, contributionRate = 5, timestamp = 20\<rparr>))
     = Some (''Outstanding Bid'', 70)
   \<and> promiseChain (sample_reads True False)
       (sample_parcel (Some \<lparr>forSalePrice = 70, contributionRate = 5, timestamp = 20\<rparr>))
       (''Outstanding Bid'', 70)
     = Fulfilled \<lparr>parcelId = ''0x1'', createdAtBlock = ''5'', status = ''In Foreclosure'',
         name = ''Parcel 0x1'', price = 70\<rparr>"
  using foreclosure_overrides
    [of "sample_parcel (Some \<lparr>forSalePrice = 70, contributionRate = 5, timestamp = 20\<rparr>)"
      "(''Outstanding Bid'', 70)" "sample_reads True False" True None]
  by (simp add: sample_parcel_def sample_reads_def step1_def promiseChain_def step2_def step3_def
      display_name_def)

text \<open>
  C10. The foreclosure override assigns the status only: the price of a record resolved
  as In Foreclosure is the price steps 1 and 2 left, that is the current bid's for-sale
  price when step 1 chose Valid, and the pending bid's for-sale price when step 1 chose
  Outstanding Bid or step 2 chose Needs Transfer.
\<close>

theorem foreclosure_keeps_price:
  "snd (step3 payerBidActive sp2) = snd sp2
   \<and> (step1 parcel = Some sp \<and> shouldBidPeriodEndEarly r = Fulfilled e
        \<and> isPayerBidActive r = Fulfilled False \<and> promiseChain r parcel sp = Fulfilled q
      \<longrightarrow> status q = ''In Foreclosure''
          \<and> price q = snd (step2 (date_now r) e parcel sp)
          \<and> (fst sp = ''Valid'' \<longrightarrow> price q = forSalePrice (currentBid parcel))
          \<and> (\<forall>pb. pendingBid parcel = Some pb
                \<and> (fst sp = ''Outstanding Bid''
                    \<or> fst (step2 (date_now r) e parcel sp) = ''Needs Transfer'')
              \<longrightarrow> price q = forSalePrice pb))"
proof -
  have frame: "snd (step3 payerBidActive sp2) = snd sp2"
    by (simp add: step3_def)
  have chain: "status q = ''In Foreclosure''
      \<and> price q = snd (step2 (date_now r) e parcel sp)
      \<and> (fst sp = ''Valid'' \<longrightarrow> price q = forSalePrice (currentBid parcel))
      \<and> (\<forall>pb. pendingBid parcel = Some pb
            \<and> (fst sp = ''Outstanding Bid''
                \<or> fst (step2 (date_now r) e parcel sp) = ''Needs Transfer'')
          \<longrightarrow> price q = forSalePrice pb)"
    if kept: "step1 parcel = Some sp" and early: "shouldBidPeriodEndEarly r = Fulfilled e"
      and inactive: "isPayerBidActive r = Fulfilled False"
      and pushed: "promiseChain r parcel sp = Fulfilled q"
  proof -
    from pushed early inactive
    have q: "status q = ''In Foreclosure''" "price q = snd (step2 (date_now r) e parcel sp)"
      by (auto simp: promiseChain_def step3_def Let_def split: settled.splits)
    from kept have "fst sp = ''Valid'' \<Longrightarrow> snd (step2 (date_now r) e parcel sp) = forSalePrice (currentBid parcel)"
      by (auto simp: step1_def step2_def Let_def split: option.splits if_splits)
    moreover from kept have "pendingBid parcel = Some pb \<Longrightarrow>
        fst sp = ''Outstanding Bid'' \<or> fst (step2 (date_now r) e parcel sp) = ''Needs Transfer'' \<Longrightarrow>
        snd (step2 (date_now r) e parcel sp) = forSalePrice pb" for pb
      by (auto simp: step1_def step2_def Let_def split: option.splits if_splits)
    ultimately show ?thesis using q by simp
  qed
  from frame chain show ?thesis by blast
qed

theorem foreclosure_keeps_price_witness:
  "snd (step3 False (''Needs Transfer'', 70)) = 70
   \<and> promiseChain (sample_reads True False)
       (sample_parcel (Some \<lparr>forSalePrice = 70, contributionRate = 5, timestamp = 20\<rparr>))
       (''Outstanding Bid'', 70)
     = Fulfilled \<lparr>parcelId = ''0x1'', createdAtBlock = ''5'', status = ''In Foreclosure'',
         name = ''Parcel 0x1'', price = 70\<rparr>
   \<and> promiseChain (sample_reads False False) (sample_parcel None) (''Valid'', 100)
     = Fulfilled \<lparr>parcelId = ''0x1'', createdAtBlock = ''5'', status = ''In Foreclosure'',
         name = ''Parcel 0x1'', price = 100\<rparr>"
  using foreclosure_keeps_price [of False "(''Needs Transfer'', 70)"
      "sample_parcel (Some \<lparr>forSalePrice = 70, contributionRate = 5, timestamp = 20\<rparr>)"
      "(''Outstanding Bid'', 70)" "sample_reads True False" True
      "\<lparr>parcelId = ''0x1'', createdAtBlock = ''5'', status = ''In Foreclosure'',
         name = ''Parcel 0x1'', price = 70\<rparr>"]
    foreclosure_keeps_price [of False "(''Needs Transfer'', 70)" "sample_parcel None"
      "(''Valid'', 100)" "sample_reads False False" False
      "\<lparr>parcelId = ''0x1'', createdAtBlock = ''5'', status = ''In Foreclosure'',
         name = ''Parcel 0x1'', price = 100\<rparr>"]
  by (simp add: sample_parcel_def sample_reads_def step1_def promiseChain_def step2_def step3_def
      display_name_def)

section \<open>Ordering of the batch\<close>

lemma mset_insert_by: "mset (insert_by c x ys) = add_mset x (mset ys)"
  by (induction ys) simp_all

lemma mset_foldl_insert_by:
  "mset (foldl (\<lambda>placed x. insert_by c x placed) acc xs) = mset acc + mset xs"
  by (induction xs arbitrary: acc) (simp_all add: mset_insert_by)

text \<open>
  C8. \<open>sortParcels\<close> returns a permutation of its input, and parcels with creation blocks
  5, 9, 1 come out in the order 9, 5, 1; but the order is that of the strings, not of the
  numbers: of two parcels created at blocks 10 and 9, the one of block 9 comes out first,
  although 9 is less than 10.
\<close>

theorem sortParcels_orders_strings:
  "mset (sortParcels parcels) = mset parcels
   \<and> map createdAtBlock
        (sortParcels [a\<lparr>createdAtBlock := ''5''\<rparr>, b\<lparr>createdAtBlock := ''9''\<rparr>,
                      c\<lparr>createdAtBlock := ''1''\<rparr>])
      = [''9'', ''5'', ''1'']
   \<and> map createdAtBlock
        (sortParcels [a\<lparr>createdAtBlock := ''10''\<rparr>, b\<lparr>createdAtBlock := ''9''\<rparr>])
      = [''9'', ''10'']
   \<and> decimal ''9'' < decimal ''10''"
proof -
  have perm: "mset (sortParcels parcels) = mset parcels"
    by (simp add: sortParcels_def Array_sort_def mset_foldl_insert_by)
  have small: "map createdAtBlock
        (sortParcels [a\<lparr>createdAtBlock := ''5''\<rparr>, b\<lparr>createdAtBlock := ''9''\<rparr>,
                      c\<lparr>createdAtBlock := ''1''\<rparr>])
      = [''9'', ''5'', ''1'']"
    by (simp add: sortParcels_def Array_sort_def compareParcels_def)
  have wrong: "map createdAtBlock
        (sortParcels [a\<lparr>createdAtBlock := ''10''\<rparr>, b\<lparr>createdAtBlock := ''9''\<rparr>])
      = [''9'', ''10'']"
    by (simp add: sortParcels_def Array_sort_def compareParcels_def)
  have numbers: "decimal ''9'' < decimal ''10''"
    by (simp add: decimal_def)
  from perm small wrong numbers show ?thesis by blast
qed

section \<open>The tracked identifier\<close>

lemma starts_with_iff: "starts_with pat s \<longleftrightarrow> (\<exists>v. s = pat @ v)"
  by (induction pat s rule: starts_with.induct) auto

lemma replace_str_prefix: "replace_str pat rep (pat @ v) = rep @ v"
proof (cases "pat @ v")
  case Nil
  then show ?thesis by simp
next
  case (Cons a list)
  have "starts_with pat (a # list)"
    unfolding starts_with_iff using Cons by metis
  then have "replace_str pat rep (a # list) = rep @ drop (length pat) (a # list)"
    by simp
  also have "drop (length pat) (a # list) = v"
    using Cons by (metis append_eq_conv_conj)
  finally show ?thesis using Cons by simp
qed

lemma replace_str_absent:
  "\<not> (\<exists>u v. s = u @ pat @ v) \<Longrightarrow> replace_str pat rep s = s"
proof (induction s)
  case Nil
  then show ?case by auto
next
  case (Cons c cs)
  have no_prefix: "\<not> starts_with pat (c # cs)"
    using Cons.prems by (metis append_Nil starts_with_iff)
  have "\<not> (\<exists>u v. cs = u @ pat @ v)"
    using Cons.prems by (metis append_Cons)
  with Cons.IH no_prefix show ?case by simp
qed

lemma replace_str_shorter:
  "s = u @ pat @ v \<Longrightarrow> pat \<noteq> [] \<Longrightarrow> length (replace_str pat [] s) < length s"
proof (induction u arbitrary: s)
  case Nil
  then show ?case using replace_str_prefix [of pat "[]" v] by simp
next
  case (Cons a u)
  then obtain rest where s: "s = a # rest" and rest: "rest = u @ pat @ v" by simp
  show ?case
  proof (cases "starts_with pat s")
    case True
    then obtain w where "s = pat @ w" by (auto simp: starts_with_iff)
    then show ?thesis using replace_str_prefix [of pat "[]" w] Cons.prems(2) by simp
  next
    case False
    with s Cons.IH [OF rest Cons.prems(2)] show ?thesis by simp
  qed
qed

text \<open>
  C9, as the code has it. The tracked identifier is built from the stream id and the
  content URL, of which only the literal \<open>ipfs://\<close> is removed: for every content URL
  \<open>ipfs://<cid>\<close> the identifier is \<open><stream id>-<cid>\<close>, and a content URL in which
  \<open>ipfs://\<close> does not occur enters the identifier whole, with whatever scheme prefix it
  has.
\<close>

theorem pin_name_ipfs:
  "pin_name streamId (''ipfs://'' @ c) = streamId @ ''-'' @ c
   \<and> ((\<nexists>u v. contentUrl = u @ ''ipfs://'' @ v) \<longrightarrow>
        pin_name streamId contentUrl = streamId @ ''-'' @ contentUrl)"
  using replace_str_prefix [of "''ipfs://''" "[]" c] replace_str_absent [of contentUrl "''ipfs://''" "[]"]
  by (auto simp: pin_name_def cid_def)

theorem pin_name_ipfs_witness:
  "pin_name ''kjzl6'' ''ipfs://QmAbc'' = ''kjzl6-QmAbc''
   \<and> (\<nexists>u v. ''http://QmAbc'' = u @ ''ipfs://'' @ v)
   \<and> pin_name ''kjzl6'' ''http://QmAbc'' = ''kjzl6-http://QmAbc''"
proof -
  have "length (replace_str ''ipfs://'' [] ''http://QmAbc'') = length ''http://QmAbc''"
    by simp
  then have absent: "\<nexists>u v. ''http://QmAbc'' = u @ ''ipfs://'' @ v"
    using replace_str_shorter [of "''http://QmAbc''" _ "''ipfs://''"] by fastforce
  with pin_name_ipfs [of "''kjzl6''" "''QmAbc''" "''http://QmAbc''"] show ?thesis
    by simp
qed

text \<open>
  The claim as the spec words it (any scheme prefix is stripped) fails on a content URL
  with another scheme: \<open>https://QmAbc\<close> is not cut down to \<open>QmAbc\<close>.
\<close>

theorem pin_name_other_scheme:
  "pin_name ''kjzl6'' (''https'' @ ''://'' @ ''QmAbc'') = ''kjzl6-https://QmAbc''
   \<and> pin_name ''kjzl6'' (''https'' @ ''://'' @ ''QmAbc'') \<noteq> ''kjzl6'' @ ''-'' @ ''QmAbc''"
  by (simp add: pin_name_def cid_def)

section \<open>The derived pin state\<close>

text \<open>
  C4. With a pinning manager present, the first effect leaves the state Pinned when
  \<open>isPinned\<close> of the identifier is true, whether or not the identifier is in the failed
  set; otherwise Failed when the identifier is in the failed set; otherwise Pinning.
\<close>

theorem pin_effect_priority:
  "pinState (pin_effect (Some m) nm s) =
     Some (if isPinned m nm then STATE_PINNED
           else if nm \<in> failedPins m then STATE_FAILED
           else STATE_PINNING)"
  by (simp add: pin_effect_def setPinState_def preload_effect_def triggerPreload_def)

theorem pin_effect_priority_witness:
  "pinState (pin_effect (Some \<lparr>isPinned = \<lambda>x. True, failedPins = {''kjzl6-QmAbc''}\<rparr>)
      ''kjzl6-QmAbc'' initial_tracker) = Some STATE_PINNED
   \<and> pinState (pin_effect (Some \<lparr>isPinned = \<lambda>x. False, failedPins = {''kjzl6-QmAbc''}\<rparr>)
      ''kjzl6-QmAbc'' initial_tracker) = Some STATE_FAILED
   \<and> pinState (pin_effect (Some \<lparr>isPinned = \<lambda>x. False, failedPins = {}\<rparr>)
      ''kjzl6-QmAbc'' initial_tracker) = Some STATE_PINNING"
  using pin_effect_priority [of "\<lparr>isPinned = \<lambda>x. True, failedPins = {''kjzl6-QmAbc''}\<rparr>"
      "''kjzl6-QmAbc''" initial_tracker]
    pin_effect_priority [of "\<lparr>isPinned = \<lambda>x. False, failedPins = {''kjzl6-QmAbc''}\<rparr>"
      "''kjzl6-QmAbc''" initial_tracker]
    pin_effect_priority [of "\<lparr>isPinned = \<lambda>x. False, failedPins = {}\<rparr>"
      "''kjzl6-QmAbc''" initial_tracker]
  by simp

section \<open>The race of preload and timer\<close>

lemma run_append:
  "run nm (xs @ ys) s = (case run nm xs s of None \<Rightarrow> None | Some t \<Rightarrow> run nm ys t)"
  by (induction xs arbitrary: s) (auto split: option.splits)

lemma setPinState_succeeded: "succeeded i s \<Longrightarrow> succeeded i (setPinState v s)"
  by (simp add: succeeded_def setPinState_def preload_effect_def triggerPreload_def nth_append)

lemma step_succeeded:
  assumes "step nm e s = Some s'" and "succeeded i s"
  shows "succeeded i s'"
proof (cases e)
  case (Observe pm)
  with assms show ?thesis
    by (auto simp: pin_effect_def setPinState_succeeded split: option.splits)
next
  case (Advance d)
  with assms show ?thesis by (auto simp: succeeded_def)
next
  case (PreloadResolved j)
  with assms show ?thesis
    by (cases "i = j") (auto simp: succeeded_def split: if_splits)
next
  case (PreloadRejected j)
  from assms(2) have "succeeded i (s\<lparr>probes := (probes s)[j := (probes s ! j)\<lparr>preload_settled := True\<rparr>]\<rparr>)"
    by (cases "i = j") (auto simp: succeeded_def)
  with assms(1) PreloadRejected show ?thesis
    by (auto simp: setPinState_succeeded split: if_splits)
next
  case (TimerFired j)
  from assms(2) have "succeeded i (s\<lparr>probes := (probes s)[j := (probes s ! j)\<lparr>timer_fired := True\<rparr>]\<rparr>)"
    by (cases "i = j") (auto simp: succeeded_def)
  with assms(1) TimerFired show ?thesis
    by (auto simp: Let_def setPinState_succeeded split: if_splits)
qed

lemma run_succeeded:
  "run nm evs s = Some s' \<Longrightarrow> succeeded i s \<Longrightarrow> succeeded i s'"
  by (induction evs arbitrary: s) (auto split: option.splits dest: step_succeeded)

lemma resolved_succeeded: "step nm (PreloadResolved i) s = Some s' \<Longrightarrow> succeeded i s'"
  by (auto simp: succeeded_def split: if_splits)

lemma timer_after_success:
  "step nm (TimerFired i) s = Some s' \<Longrightarrow> succeeded i s \<Longrightarrow> pinState s' = pinState s"
  by (auto simp: succeeded_def Let_def split: if_splits)

text \<open>
  C5. When the preload of a probe resolves before the probe's timer fires, then, whatever
  happens in between, the timer's callback changes no state: \<open>pinState\<close> after the timer
  fired is what it was before, so the timer never forces Not Found after a successful
  preload.
\<close>

theorem timer_after_resolved_preload:
  assumes "run nm (earlier @ PreloadResolved i # later) s0 = Some s2"
    and "step nm (TimerFired i) s2 = Some s3"
  shows "pinState s3 = pinState s2"
proof -
  from assms(1) obtain s where "run nm (PreloadResolved i # later) s = Some s2"
    by (auto simp: run_append split: option.splits)
  then obtain s1 where resolved: "step nm (PreloadResolved i) s = Some s1"
    and later: "run nm later s1 = Some s2"
    by (cases "step nm (PreloadResolved i) s") (simp_all del: step.simps)
  from resolved have "succeeded i s1" by (rule resolved_succeeded)
  with later have "succeeded i s2" by (rule run_succeeded)
  with assms(2) show ?thesis by (rule timer_after_success)
qed

theorem timer_after_resolved_preload_witness:
  "run ''kjzl6-QmAbc''
      ([Observe (Some \<lparr>isPinned = \<lambda>x. False, failedPins = {}\<rparr>), Advance 1]
        @ PreloadResolved 0 # [Advance 10000])
      initial_tracker
    = Some \<lparr>pinState = Some STATE_PINNING,
        probes = [\<lparr>success = True, preload_settled = True, timer_due = 10000, timer_fired = False\<rparr>],
        clock = 10001\<rparr>
   \<and> step ''kjzl6-QmAbc'' (TimerFired 0)
       \<lparr>pinState = Some STATE_PINNING,
        probes = [\<lparr>success = True, preload_settled = True, timer_due = 10000, timer_fired = False\<rparr>],
        clock = 10001\<rparr>
    = Some \<lparr>pinState = Some STATE_PINNING,
        probes = [\<lparr>success = True, preload_settled = True, timer_due = 10000, timer_fired = True\<rparr>],
        clock = 10001\<rparr>
   \<and> pinState \<lparr>pinState = Some STATE_PINNING,
        probes = [\<lparr>success = True, preload_settled = True, timer_due = 10000, timer_fired = True\<rparr>],
        clock = 10001\<rparr>
     = pinState \<lparr>pinState = Some STATE_PINNING,
        probes = [\<lparr>success = True, preload_settled = True, timer_due = 10000, timer_fired = False\<rparr>],
        clock = 10001\<rparr>"
  using timer_after_resolved_preload [of "''kjzl6-QmAbc''"
      "[Observe (Some \<lparr>isPinned = \<lambda>x. False, failedPins = {}\<rparr>), Advance 1]" 0 "[Advance 10000]"
      initial_tracker
      "\<lparr>pinState = Some STATE_PINNING,
        probes = [\<lparr>success = True, preload_settled = True, timer_due = 10000, timer_fired = False\<rparr>],
        clock = 10001\<rparr>"
      "\<lparr>pinState = Some STATE_PINNING,
        probes = [\<lparr>success = True, preload_settled = True, timer_due = 10000, timer_fired = True\<rparr>],
        clock = 10001\<rparr>"]
  by (simp add: initial_tracker_def pin_effect_def setPinState_def preload_effect_def
      triggerPreload_def)

lemma flags_consistent_update:
  assumes "flags_consistent s" and "\<not> success p \<or> preload_settled p"
  shows "flags_consistent (s\<lparr>probes := (probes s)[j := p]\<rparr>)"
proof -
  have "set ((probes s)[j := p]) \<subseteq> insert p (set (probes s))"
    by (rule set_update_subset_insert)
  with assms show ?thesis
    by (auto simp: flags_consistent_def list_all_iff)
qed

lemma flags_consistent_setPinState:
  "flags_consistent s \<Longrightarrow> flags_consistent (setPinState v s)"
  by (simp add: flags_consistent_def setPinState_def preload_effect_def triggerPreload_def)

lemma flags_consistent_nth:
  "flags_consistent s \<Longrightarrow> j < length (probes s) \<Longrightarrow>
   \<not> success (probes s ! j) \<or> preload_settled (probes s ! j)"
  by (simp add: flags_consistent_def list_all_length)

lemma flags_consistent_step:
  assumes "step nm e s = Some s'" and "flags_consistent s"
  shows "flags_consistent s'"
proof (cases e)
  case (Observe pm)
  with assms show ?thesis
    by (auto simp: pin_effect_def flags_consistent_setPinState split: option.splits)
next
  case (Advance d)
  with assms show ?thesis by (auto simp: flags_consistent_def)
next
  case (PreloadResolved j)
  have "flags_consistent
      (s\<lparr>probes := (probes s)[j := (probes s ! j)\<lparr>success := True, preload_settled := True\<rparr>]\<rparr>)"
    using assms(2) by (rule flags_consistent_update) simp
  with assms(1) PreloadResolved show ?thesis by (auto split: if_splits)
next
  case (PreloadRejected j)
  have "flags_consistent (s\<lparr>probes := (probes s)[j := (probes s ! j)\<lparr>preload_settled := True\<rparr>]\<rparr>)"
    using assms(2) by (rule flags_consistent_update) simp
  with assms(1) PreloadRejected show ?thesis
    by (auto simp: flags_consistent_setPinState split: if_splits)
next
  case (TimerFired j)
  show ?thesis
  proof (cases "j < length (probes s)")
    case True
    with assms(2) have "\<not> success (probes s ! j) \<or> preload_settled (probes s ! j)"
      by (rule flags_consistent_nth)
    then have "\<not> success ((probes s ! j)\<lparr>timer_fired := True\<rparr>)
        \<or> preload_settled ((probes s ! j)\<lparr>timer_fired := True\<rparr>)"
      by simp
    with assms(2)
    have "flags_consistent (s\<lparr>probes := (probes s)[j := (probes s ! j)\<lparr>timer_fired := True\<rparr>]\<rparr>)"
      by (rule flags_consistent_update)
    with assms(1) TimerFired show ?thesis
      by (auto simp: Let_def flags_consistent_setPinState split: if_splits)
  next
    case False
    with assms(1) TimerFired show ?thesis by simp
  qed
qed

lemma flags_consistent_run:
  "run nm evs s = Some s' \<Longrightarrow> flags_consistent s \<Longrightarrow> flags_consistent s'"
  by (induction evs arbitrary: s) (auto split: option.splits dest: flags_consistent_step)

lemma flags_consistent_initial: "flags_consistent initial_tracker"
  by (simp add: flags_consistent_def initial_tracker_def)

lemma rejected_keeps_flag:
  "step nm (PreloadRejected i) s = Some s1 \<Longrightarrow>
   pinState s1 = Some STATE_NOT_FOUND \<and> success (probes s1 ! i) = success (probes s ! i)"
  by (auto simp: setPinState_def preload_effect_def nth_append split: if_splits)

lemma pending_unset:
  "flags_consistent s \<Longrightarrow> step nm (PreloadRejected i) s = Some s1 \<Longrightarrow>
   \<not> success (probes s ! i)"
  using flags_consistent_nth [of s i] by (auto split: if_splits)

text \<open>
  C6, as the code has it. When the preload of a probe rejects, the state becomes Not Found
  at once. The rejection leaves the probe's flag \<open>success\<close> as it was, and on every state
  the item reaches from its mount that is unset: the flag is unset after the rejection. So
  the timer's callback sets Not Found again: when the state is still Not Found at that
  time, it stays Not Found.
\<close>

theorem rejected_preload_not_found:
  "(step nm (PreloadRejected i) s = Some s1 \<longrightarrow>
      pinState s1 = Some STATE_NOT_FOUND \<and> success (probes s1 ! i) = success (probes s ! i))
   \<and> (run nm evs initial_tracker = Some s \<and> step nm (PreloadRejected i) s = Some s1 \<longrightarrow>
      pinState s1 = Some STATE_NOT_FOUND \<and> \<not> success (probes s1 ! i))
   \<and> (pinState s2 = Some STATE_NOT_FOUND \<and> step nm (TimerFired i) s2 = Some s3 \<longrightarrow>
      pinState s3 = Some STATE_NOT_FOUND)"
proof -
  have unset: "pinState s1 = Some STATE_NOT_FOUND \<and> \<not> success (probes s1 ! i)"
    if reached: "run nm evs initial_tracker = Some s"
      and rejected: "step nm (PreloadRejected i) s = Some s1"
  proof -
    from reached flags_consistent_initial have "flags_consistent s"
      by (rule flags_consistent_run)
    then have "\<not> success (probes s ! i)" using rejected by (rule pending_unset)
    with rejected_keeps_flag [OF rejected] show ?thesis by simp
  qed
  have timer: "pinState s3 = Some STATE_NOT_FOUND"
    if "pinState s2 = Some STATE_NOT_FOUND" and "step nm (TimerFired i) s2 = Some s3"
    using that by (auto simp: setPinState_def Let_def split: if_splits)
  from rejected_keeps_flag [of nm i s s1] unset timer show ?thesis by blast
qed

theorem rejected_preload_not_found_witness:
  "run ''kjzl6-QmAbc'' [Observe (Some \<lparr>isPinned = \<lambda>x. False, failedPins = {}\<rparr>), Advance 1]
      initial_tracker
    = Some \<lparr>pinState = Some STATE_PINNING,
       probes = [\<lparr>success = False, preload_settled = False, timer_due = 10000, timer_fired = False\<rparr>],
       clock = 1\<rparr>
   \<and> step ''kjzl6-QmAbc'' (PreloadRejected 0)
      \<lparr>pinState = Some STATE_PINNING,
       probes = [\<lparr>success = False, preload_settled = False, timer_due = 10000, timer_fired = False\<rparr>],
       clock = 1\<rparr>
    = Some \<lparr>pinState = Some STATE_NOT_FOUND,
       probes = [\<lparr>success = False, preload_settled = True, timer_due = 10000, timer_fired = False\<rparr>],
       clock = 1\<rparr>
   \<and> step ''kjzl6-QmAbc'' (TimerFired 0)
      \<lparr>pinState = Some STATE_NOT_FOUND,
       probes = [\<lparr>success = False, preload_settled = True, timer_due = 10000, timer_fired = False\<rparr>],
       clock = 10000\<rparr>
    = Some \<lparr>pinState = Some STATE_NOT_FOUND,
       probes = [\<lparr>success = False, preload_settled = True, timer_due = 10000, timer_fired = True\<rparr>],
       clock = 10000\<rparr>"
  using rejected_preload_not_found [of "''kjzl6-QmAbc''" 0
      "\<lparr>pinState = Some STATE_PINNING,
       probes = [\<lparr>success = False, preload_settled = False, timer_due = 10000, timer_fired = False\<rparr>],
       clock = 1\<rparr>"
      "\<lparr>pinState = Some STATE_NOT_FOUND,
       probes = [\<lparr>success = False, preload_settled = True, timer_due = 10000, timer_fired = False\<rparr>],
       clock = 1\<rparr>"
      "[Observe (Some \<lparr>isPinned = \<lambda>x. False, failedPins = {}\<rparr>), Advance 1]"
      "\<lparr>pinState = Some STATE_NOT_FOUND,
       probes = [\<lparr>success = False, preload_settled = True, timer_due = 10000, timer_fired = False\<rparr>],
       clock = 10000\<rparr>"
      "\<lparr>pinState = Some STATE_NOT_FOUND,
       probes = [\<lparr>success = False, preload_settled = True, timer_due = 10000, timer_fired = True\<rparr>],
       clock = 10000\<rparr>"]
  by (simp add: initial_tracker_def pin_effect_def setPinState_def preload_effect_def
      triggerPreload_def)

text \<open>
  The claim as the spec words it fails: the flag does not stop the timer after a
  rejection. An item is observed unpinned, its preload rejects (Not Found, flag still
  unset), it is then observed pinned (Pinned), and the timer of the rejected probe sets
  Not Found a second time.
\<close>

theorem timer_after_rejected_preload:
  "map_option pinState
      (run ''kjzl6-QmAbc''
        [Observe (Some \<lparr>isPinned = \<lambda>x. False, failedPins = {}\<rparr>), PreloadRejected 0]
        initial_tracker) = Some (Some STATE_NOT_FOUND)
   \<and> map_option (\<lambda>s. success (probes s ! 0))
      (run ''kjzl6-QmAbc''
        [Observe (Some \<lparr>isPinned = \<lambda>x. False, failedPins = {}\<rparr>), PreloadRejected 0]
        initial_tracker) = Some False
   \<and> map_option pinState
      (run ''kjzl6-QmAbc''
        [Observe (Some \<lparr>isPinned = \<lambda>x. False, failedPins = {}\<rparr>), PreloadRejected 0,
         Observe (Some \<lparr>isPinned = \<lambda>x. True, failedPins = {}\<rparr>), Advance 10000]
        initial_tracker) = Some (Some STATE_PINNED)
   \<and> map_option pinState
      (run ''kjzl6-QmAbc''
        [Observe (Some \<lparr>isPinned = \<lambda>x. False, failedPins = {}\<rparr>), PreloadRejected 0,
         Observe (Some \<lparr>isPinned = \<lambda>x. True, failedPins = {}\<rparr>), Advance 10000, TimerFired 0]
        initial_tracker) = Some (Some STATE_NOT_FOUND)"
  by (simp add: initial_tracker_def pin_effect_def setPinState_def preload_effect_def
      triggerPreload_def)

section \<open>Stability between observations\<close>

lemma quiet_step:
  assumes "step nm e s = Some s'" and "quiet ok (e # es)" and "\<forall>j\<in>ok. succeeded j s"
    and "pinState s = Some v"
  shows "pinState s' = Some v"
  using assms by (cases e) (auto simp: succeeded_def Let_def split: if_splits)

lemma quiet_run:
  "run nm evs s = Some s' \<Longrightarrow> quiet ok evs \<Longrightarrow> \<forall>j\<in>ok. succeeded j s \<Longrightarrow>
   pinState s = Some v \<Longrightarrow> pinState s' = Some v"
proof (induction evs arbitrary: s ok)
  case Nil
  then show ?case by simp
next
  case (Cons e es)
  from Cons.prems(1) obtain t where t: "step nm e s = Some t" and rest: "run nm es t = Some s'"
    by (auto split: option.splits)
  have pin: "pinState t = Some v"
    using t Cons.prems(2,3,4) by (rule quiet_step)
  have keep: "\<forall>j\<in>ok. succeeded j t"
    using Cons.prems(3) t by (auto dest: step_succeeded)
  show ?case
  proof (cases e)
    case (Observe pm)
    with Cons.prems(2) show ?thesis by simp
  next
    case (Advance d)
    with Cons.prems(2) have "quiet ok es" by simp
    from Cons.IH [OF rest this keep pin] show ?thesis .
  next
    case (PreloadResolved j)
    with Cons.prems(2) have q: "quiet (insert j ok) es" by simp
    from t [unfolded PreloadResolved] have "succeeded j t" by (rule resolved_succeeded)
    with keep have "\<forall>k\<in>insert j ok. succeeded k t" by simp
    from Cons.IH [OF rest q this pin] show ?thesis .
  next
    case (PreloadRejected j)
    with Cons.prems(2) show ?thesis by simp
  next
    case (TimerFired j)
    with Cons.prems(2) have "quiet ok es" by simp
    from Cons.IH [OF rest this keep pin] show ?thesis .
  qed
qed

lemma not_found_step:
  "step nm e s = Some s' \<Longrightarrow> probe_event e \<Longrightarrow> pinState s = Some STATE_NOT_FOUND \<Longrightarrow>
   pinState s' = Some STATE_NOT_FOUND"
  by (cases e) (auto simp: setPinState_def Let_def split: if_splits)

lemma not_found_run:
  "run nm evs s = Some s' \<Longrightarrow> list_all probe_event evs \<Longrightarrow>
   pinState s = Some STATE_NOT_FOUND \<Longrightarrow> pinState s' = Some STATE_NOT_FOUND"
  by (induction evs arbitrary: s) (auto split: option.splits dest: not_found_step)

text \<open>
  C7, as the code has it. Until the next observation of the pinning manager, a state Not
  Found stays Not Found under every event of every probe; and a state Pinned or Failed
  (any state, in fact) stays as it is under the passing of time, under every preload that
  resolves, and under the timer of every probe whose preload has resolved.
\<close>

theorem stable_until_observation:
  "(run nm evs s = Some s' \<and> list_all probe_event evs \<and> pinState s = Some STATE_NOT_FOUND
      \<longrightarrow> pinState s' = Some STATE_NOT_FOUND)
   \<and> (run nm evs s = Some s' \<and> quiet ok evs \<and> (\<forall>j\<in>ok. succeeded j s) \<and> pinState s = Some v
      \<longrightarrow> pinState s' = Some v)"
  using not_found_run [of nm evs s s'] quiet_run [of nm evs s s' ok v] by blast

theorem stable_until_observation_witness:
  "run ''kjzl6-QmAbc'' [Advance 10000, PreloadRejected 1, TimerFired 0, TimerFired 1]
      \<lparr>pinState = Some STATE_NOT_FOUND,
       probes = [\<lparr>success = True, preload_settled = True, timer_due = 10000, timer_fired = False\<rparr>,
                 \<lparr>success = False, preload_settled = False, timer_due = 10001, timer_fired = False\<rparr>],
       clock = 1\<rparr>
    = Some \<lparr>pinState = Some STATE_NOT_FOUND,
       probes = [\<lparr>success = True, preload_settled = True, timer_due = 10000, timer_fired = True\<rparr>,
                 \<lparr>success = False, preload_settled = True, timer_due = 10001, timer_fired = True\<rparr>],
       clock = 10001\<rparr>
   \<and> run ''kjzl6-QmAbc'' [Advance 10000, PreloadResolved 1, TimerFired 0, TimerFired 1]
      \<lparr>pinState = Some STATE_PINNED,
       probes = [\<lparr>success = True, preload_settled = True, timer_due = 10000, timer_fired = False\<rparr>,
                 \<lparr>success = False, preload_settled = False, timer_due = 10001, timer_fired = False\<rparr>],
       clock = 1\<rparr>
    = Some \<lparr>pinState = Some STATE_PINNED,
       probes = [\<lparr>success = True, preload_settled = True, timer_due = 10000, timer_fired = True\<rparr>,
                 \<lparr>success = True, preload_settled = True, timer_due = 10001, timer_fired = True\<rparr>],
       clock = 10001\<rparr>
   \<and> quiet {0} [Advance 10000, PreloadResolved 1, TimerFired 0, TimerFired 1]"
  using stable_until_observation [of "''kjzl6-QmAbc''"
      "[Advance 10000, PreloadRejected 1, TimerFired 0, TimerFired 1]"
      "\<lparr>pinState = Some STATE_NOT_FOUND,
       probes = [\<lparr>success = True, preload_settled = True, timer_due = 10000, timer_fired = False\<rparr>,
                 \<lparr>success = False, preload_settled = False, timer_due = 10001, timer_fired = False\<rparr>],
       clock = 1\<rparr>"
      "\<lparr>pinState = Some STATE_NOT_FOUND,
       probes = [\<lparr>success = True, preload_settled = True, timer_due = 10000, timer_fired = True\<rparr>,
                 \<lparr>success = False, preload_settled = True, timer_due = 10001, timer_fired = True\<rparr>],
       clock = 10001\<rparr>" "{}" STATE_NOT_FOUND]
    stable_until_observation [of "''kjzl6-QmAbc''"
      "[Advance 10000, PreloadResolved 1, TimerFired 0, TimerFired 1]"
      "\<lparr>pinState = Some STATE_PINNED,
       probes = [\<lparr>success = True, preload_settled = True, timer_due = 10000, timer_fired = False\<rparr>,
                 \<lparr>success = False, preload_settled = False, timer_due = 10001, timer_fired = False\<rparr>],
       clock = 1\<rparr>"
      "\<lparr>pinState = Some STATE_PINNED,
       probes = [\<lparr>success = True, preload_settled = True, timer_due = 10000, timer_fired = True\<rparr>,
                 \<lparr>success = True, preload_settled = True, timer_due = 10001, timer_fired = True\<rparr>],
       clock = 10001\<rparr>" "{0}" STATE_PINNED]
  by (simp add: setPinState_def preload_effect_def succeeded_def)

text \<open>
  The claim as the spec words it fails: a timer started during an earlier Pinning state
  changes a state that has since become Pinned. An item is observed unpinned (Pinning, a
  probe starts), then observed pinned (Pinned); with no further observation, ten seconds
  pass and the probe's timer, whose preload has not resolved, sets Not Found.
\<close>

theorem pinned_overridden_by_timer:
  "map_option pinState
      (run ''kjzl6-QmAbc''
        [Observe (Some \<lparr>isPinned = \<lambda>x. False, failedPins = {}\<rparr>),
         Observe (Some \<lparr>isPinned = \<lambda>x. True, failedPins = {}\<rparr>)]
        initial_tracker) = Some (Some STATE_PINNED)
   \<and> list_all probe_event [Advance 10000, TimerFired 0]
   \<and> map_option pinState
      (run ''kjzl6-QmAbc''
        ([Observe (Some \<lparr>isPinned = \<lambda>x. False, failedPins = {}\<rparr>),
          Observe (Some \<lparr>isPinned = \<lambda>x. True, failedPins = {}\<rparr>)]
         @ [Advance 10000, TimerFired 0])
        initial_tracker) = Some (Some STATE_NOT_FOUND)"
  by (simp add: initial_tracker_def pin_effect_def setPinState_def preload_effect_def
      triggerPreload_def)

end
